theory Spec2Isabelle
  imports Main "HOL-Library.Word"
begin

unbundle bit_operations_syntax

section \<open>C strings and the library functions used by \<open>parse_version\<close>\<close>

text \<open>
  A C string (\<open>const char *\<close>) is modelled by the list of its characters before the
  terminating NUL. A pointer into the string is the offset from its start, so
  \<open>dot - str\<close> is the offset itself and \<open>dot + 1\<close> is \<open>drop (offset + 1) str\<close>.
\<close>

definition strlen :: "string \<Rightarrow> nat" where
  "strlen s = length s"

text \<open>\<open>strchr(s, c)\<close>: the offset of the first occurrence of \<open>c\<close>, \<open>None\<close> for NULL.\<close>

definition strchr :: "string \<Rightarrow> char \<Rightarrow> nat option" where
  "strchr s c = (if c \<in> set s then Some (length (takeWhile (\<lambda>x. x \<noteq> c) s)) else None)"

text \<open>\<open>isspace\<close> and \<open>isdigit\<close> in the C locale.\<close>

definition isspace :: "char \<Rightarrow> bool" where
  "isspace c = ((of_char c :: nat) = 32 \<or> (9 \<le> (of_char c :: nat) \<and> (of_char c :: nat) \<le> 13))"

definition isdigit :: "char \<Rightarrow> bool" where
  "isdigit c = (48 \<le> (of_char c :: nat) \<and> (of_char c :: nat) \<le> 57)"

definition digit_value :: "char \<Rightarrow> int" where
  "digit_value c = int (of_char c) - 48"

text \<open>
  \<open>atoi\<close>: skip leading white space, read an optional sign, then accumulate decimal
  digits up to the first character that is not a digit; no digits give 0. The result is
  an unbounded \<open>int\<close>: \<open>parse_version\<close> only passes strings of at most two characters,
  whose value is far inside the range of a C \<open>int\<close>.
\<close>

fun atoi_digits :: "int \<Rightarrow> string \<Rightarrow> int" where
  "atoi_digits acc [] = acc"
| "atoi_digits acc (c # cs) =
     (if isdigit c then atoi_digits (10 * acc + digit_value c) cs else acc)"

definition atoi :: "string \<Rightarrow> int" where
  "atoi s =
     (case dropWhile isspace s of
        [] \<Rightarrow> 0
      | c # cs \<Rightarrow>
          if c = CHR ''-'' then - atoi_digits 0 cs
          else if c = CHR ''+'' then atoi_digits 0 cs
          else atoi_digits 0 (c # cs))"

section \<open>\<open>parse_version\<close>\<close>

text \<open>
  \<open>parse_version(str, &major, &minor)\<close> returns \<open>false\<close> (here \<open>None\<close>) without
  touching the outputs, or stores both numbers and returns \<open>true\<close> (here \<open>Some\<close>).
  The two local arrays hold the copied components; this definition works on the copied
  strings as values, the buffers themselves are modelled in \<open>parse_version_buf\<close> below.
\<close>

definition parse_version :: "string \<Rightarrow> (int \<times> int) option" where
  "parse_version str =
     (case strchr str CHR ''.'' of
        Some dot \<Rightarrow>
          if dot > 2 then None
          else if strlen (drop (dot + 1) str) > 2 then None
          else
            let major_str = take dot str;
                minor_str = drop (dot + 1) str
            in Some (atoi major_str, atoi minor_str)
      | None \<Rightarrow>
          if strlen str > 2 then None
          else
            let major_str = str;
                minor_str = ''0''
            in Some (atoi major_str, atoi minor_str))"

section \<open>The two local buffers of \<open>parse_version\<close>\<close>

text \<open>
  \<open>char major_str[3]\<close> and \<open>char minor_str[3]\<close> are fixed-size arrays. A buffer is the
  list of its cells; every write that would fall outside the array, and every string read
  that would run past its end, is the fault \<open>Buffer_overflow\<close>. The arrays are not
  initialised, so their initial contents are parameters.
\<close>

datatype fault = Buffer_overflow

type_synonym buffer = "char list"

definition NUL :: char where
  "NUL = CHR 0x00"

text \<open>\<open>strcpy(dst, src)\<close> writes the characters of \<open>src\<close> and the terminator.\<close>

definition strcpy :: "buffer \<Rightarrow> string \<Rightarrow> fault + buffer" where
  "strcpy dst src =
     (if length src + 1 \<le> length dst
      then Inr (src @ [NUL] @ drop (length src + 1) dst)
      else Inl Buffer_overflow)"

text \<open>
  \<open>strncpy(dst, src, n)\<close> writes exactly \<open>n\<close> cells: the first \<open>n\<close> characters of
  \<open>src\<close>, padded with NUL when \<open>src\<close> is shorter; it writes no terminator of its own.
\<close>

definition strncpy :: "buffer \<Rightarrow> string \<Rightarrow> nat \<Rightarrow> fault + buffer" where
  "strncpy dst src n =
     (if n \<le> length dst
      then Inr (take n (src @ replicate n NUL) @ drop n dst)
      else Inl Buffer_overflow)"

text \<open>\<open>dst[i] = c\<close>.\<close>

definition store :: "buffer \<Rightarrow> nat \<Rightarrow> char \<Rightarrow> fault + buffer" where
  "store dst i c = (if i < length dst then Inr (dst[i := c]) else Inl Buffer_overflow)"

text \<open>The C string held in a buffer, as \<open>atoi\<close> reads it: the cells before the first NUL.\<close>

definition load_string :: "buffer \<Rightarrow> fault + string" where
  "load_string b =
     (if NUL \<in> set b then Inr (takeWhile (\<lambda>x. x \<noteq> NUL) b) else Inl Buffer_overflow)"

definition read_versions :: "buffer \<Rightarrow> buffer \<Rightarrow> fault + (int \<times> int) option" where
  "read_versions major_str minor_str =
     (case load_string major_str of
        Inl f \<Rightarrow> Inl f
      | Inr a \<Rightarrow>
          (case load_string minor_str of
             Inl f \<Rightarrow> Inl f
           | Inr b \<Rightarrow> Inr (Some (atoi a, atoi b))))"

definition parse_version_buf :: "buffer \<Rightarrow> buffer \<Rightarrow> string \<Rightarrow> fault + (int \<times> int) option" where
  "parse_version_buf major_str minor_str str =
     (case strchr str CHR ''.'' of
        Some dot \<Rightarrow>
          if dot > 2 then Inr None
          else if strlen (drop (dot + 1) str) > 2 then Inr None
          else
            (case strncpy major_str str dot of
               Inl f \<Rightarrow> Inl f
             | Inr major_str1 \<Rightarrow>
                 (case store major_str1 dot NUL of
                    Inl f \<Rightarrow> Inl f
                  | Inr major_str2 \<Rightarrow>
                      (case strcpy minor_str (drop (dot + 1) str) of
                         Inl f \<Rightarrow> Inl f
                       | Inr minor_str1 \<Rightarrow> read_versions major_str2 minor_str1)))
      | None \<Rightarrow>
          if strlen str > 2 then Inr None
          else
            (case strcpy major_str str of
               Inl f \<Rightarrow> Inl f
             | Inr major_str1 \<Rightarrow>
                 (case strcpy minor_str ''0'' of
                    Inl f \<Rightarrow> Inl f
                  | Inr minor_str1 \<Rightarrow> read_versions major_str1 minor_str1)))"

section \<open>The input queue\<close>

datatype input_type = IN_CODE | IN_JAF | IN_TEXT | IN_DECL

record input =
  type :: input_type
  filename :: string

text \<open>
  Modelled from the spec: the macros \<open>ALICE_ERROR\<close> and \<open>USAGE_ERROR\<close> (defined in
  \<open>alice.h\<close>, which is not among the verified sources) report a fatal error and end the
  run with a failure status; the error value keeps the message. \<open>Collaborator_failure\<close>
  is a run ended inside an external call that reports its own fatal error.
\<close>

datatype error = ALICE_ERROR string | USAGE_ERROR string | Collaborator_failure

text \<open>
  The static array \<open>inputs[256]\<close> with its counter \<open>nr_inputs\<close>. The counter only
  grows from 0 and never passes 256, so it is a \<open>nat\<close>.
\<close>

record input_queue =
  inputs :: "input list"
  nr_inputs :: nat

definition empty_queue :: input_queue where
  "empty_queue = \<lparr>inputs = replicate 256 \<lparr>type = IN_CODE, filename = []\<rparr>, nr_inputs = 0\<rparr>"

text \<open>
  \<open>push_input\<close> returns the error that ended the run, if any, with the queue as the call
  left it.
\<close>

definition push_input :: "input_type \<Rightarrow> string \<Rightarrow> input_queue \<Rightarrow> error option \<times> input_queue" where
  "push_input t f q =
     (if nr_inputs q \<ge> 256 then (Some (ALICE_ERROR ''Too many inputs''), q)
      else (None, q\<lparr>inputs := (inputs q)[nr_inputs q := \<lparr>type = t, filename = f\<rparr>],
                     nr_inputs := nr_inputs q + 1\<rparr>))"

text \<open>The requests held by the queue: the cells below the counter, in index order.\<close>

definition queued :: "input_queue \<Rightarrow> input list" where
  "queued q = take (nr_inputs q) (inputs q)"

section \<open>External collaborators\<close>

text \<open>
  Modelled from the spec: the container library, the assembler, the compiler, the two
  mergers and the constant \<open>ASM_RAW\<close> are declared in headers that are not among the
  verified sources. They are parameters of the model, over any type \<open>'img\<close> of container
  images, with the results the interface list of the specification (section 6) gives
  them. A call that mutates the image returns the new image. \<open>ain_open\<close> returns the
  error code it stores in \<open>err\<close> when it returns NULL. The assembler, the compiler, the
  mergers and the writer return nothing that \<open>command_ain_edit\<close> reads and end the run
  themselves on failure: \<open>None\<close>, and \<open>False\<close> for the writer. \<open>ain_new\<close>, the
  member-function fix-up and the transcoder always return. Every collaborator may read
  the ambient text encodings and the silent switch, so it receives them (\<open>ambient\<close>);
  the fix-up is always given the same decoder \<open>conv_output_utf8\<close>, which is left out.
\<close>

type_synonym ambient = "string \<times> string \<times> bool"

record 'img collab =
  ASM_RAW :: "32 word"
  ain_new :: "int \<Rightarrow> int \<Rightarrow> 'img"
  ain_open :: "string \<Rightarrow> int + 'img"
  ain_strerror :: "int \<Rightarrow> string"
  ain_init_member_functions :: "ambient \<Rightarrow> 'img \<Rightarrow> 'img"
  ain_transcode :: "ambient \<Rightarrow> 'img \<Rightarrow> 'img"
  asm_assemble_jam :: "ambient \<Rightarrow> string \<Rightarrow> 'img \<Rightarrow> 32 word \<Rightarrow> 'img option"
  jaf_build :: "ambient \<Rightarrow> 'img \<Rightarrow> string list \<Rightarrow> 'img option"
  read_text :: "ambient \<Rightarrow> string \<Rightarrow> 'img \<Rightarrow> 'img option"
  read_declarations :: "ambient \<Rightarrow> string \<Rightarrow> 'img \<Rightarrow> 'img option"
  ain_write :: "ambient \<Rightarrow> string \<Rightarrow> 'img \<Rightarrow> bool"

text \<open>
  What a run does to the outside, in order: the messages it prints with \<open>WARNING\<close> and
  \<open>NOTICE\<close> (macros that print and return), and the external calls it makes with their
  arguments. \<open>Call_ain_write\<close> carries the image handed to the writer. The project
  builder \<open>pje_build\<close> has no result and is only recorded as a call. The first statement,
  \<open>initialize_instructions()\<close>, fills the assembler's instruction tables before any
  option is read; it has no part in what follows and is not recorded.
\<close>

datatype 'img event =
    WARNING string
  | NOTICE string
  | Call_pje_build string int int
  | Call_ain_new int int
  | Call_ain_open string
  | Call_ain_init_member_functions
  | Call_ain_transcode string string
  | Call_asm_assemble_jam string "32 word"
  | Call_jaf_build "string list"
  | Call_read_text string
  | Call_read_declarations string
  | Call_ain_write string 'img
  | Call_ain_free

section \<open>\<open>command_ain_edit\<close>: reading the options\<close>

text \<open>
  The values \<open>alice_getopt\<close> can return that the \<open>switch\<close> has a case for; \<open>Unhandled\<close>
  is any other value, for which the \<open>switch\<close> does nothing. The command line is the list
  of the returned values, each with its \<open>optarg\<close>, up to the first \<open>-1\<close>, followed by
  the positional arguments left after \<open>optind\<close>.
\<close>

datatype getopt_code =
    Short_p | LOPT_PROJECT
  | Short_c | LOPT_CODE
  | LOPT_JAF
  | Short_j | LOPT_JSON
  | Short_t | LOPT_TEXT
  | LOPT_TRANSCODE
  | Short_o | LOPT_OUTPUT
  | LOPT_RAW
  | LOPT_AIN_VERSION
  | LOPT_SILENT
  | Unhandled

text \<open>
  The local variables of \<open>command_ain_edit\<close> and the globals it writes: the input queue,
  the two encodings set by \<open>set_input_encoding\<close> and \<open>set_output_encoding\<close>, and
  \<open>sys_silent\<close>. The command runs once in a process, so the queue starts as its static
  initialiser leaves it. \<open>sys_silent\<close> is defined elsewhere; it is taken as false until
  the option sets it, and nothing below depends on its value.
\<close>

record state =
  project_file :: "string option"
  output_file :: "string option"
  major_version :: int
  minor_version :: int
  transcode :: bool
  flags :: "32 word"
  queue :: input_queue
  input_encoding :: string
  output_encoding :: string
  sys_silent :: bool

definition init_state :: state where
  "init_state =
     \<lparr>project_file = None, output_file = None, major_version = 4, minor_version = 0,
      transcode = False, flags = 0, queue = empty_queue,
      input_encoding = ''UTF-8'', output_encoding = ''CP932'', sys_silent = False\<rparr>"

definition ambient_of :: "state \<Rightarrow> ambient" where
  "ambient_of st = (input_encoding st, output_encoding st, sys_silent st)"

definition queue_input :: "input_type \<Rightarrow> string \<Rightarrow> state \<Rightarrow> error + state" where
  "queue_input t f st =
     (case push_input t f (queue st) of
        (Some e, q) \<Rightarrow> Inl e
      | (None, q) \<Rightarrow> Inr (st\<lparr>queue := q\<rparr>))"

text \<open>The body of the \<open>switch\<close>.\<close>

fun handle_option :: "'img collab \<Rightarrow> getopt_code \<Rightarrow> string \<Rightarrow> state \<Rightarrow> error + state" where
  "handle_option c Short_p optarg st = Inr (st\<lparr>project_file := Some optarg\<rparr>)"
| "handle_option c LOPT_PROJECT optarg st = Inr (st\<lparr>project_file := Some optarg\<rparr>)"
| "handle_option c Short_c optarg st = queue_input IN_CODE optarg st"
| "handle_option c LOPT_CODE optarg st = queue_input IN_CODE optarg st"
| "handle_option c LOPT_JAF optarg st = queue_input IN_JAF optarg st"
| "handle_option c Short_j optarg st = queue_input IN_DECL optarg st"
| "handle_option c LOPT_JSON optarg st = queue_input IN_DECL optarg st"
| "handle_option c Short_t optarg st = queue_input IN_TEXT optarg st"
| "handle_option c LOPT_TEXT optarg st = queue_input IN_TEXT optarg st"
| "handle_option c LOPT_TRANSCODE optarg st =
     Inr (st\<lparr>transcode := True, input_encoding := ''CP932'', output_encoding := optarg\<rparr>)"
| "handle_option c Short_o optarg st = Inr (st\<lparr>output_file := Some optarg\<rparr>)"
| "handle_option c LOPT_OUTPUT optarg st = Inr (st\<lparr>output_file := Some optarg\<rparr>)"
| "handle_option c LOPT_RAW optarg st = Inr (st\<lparr>flags := flags st OR ASM_RAW c\<rparr>)"
| "handle_option c LOPT_AIN_VERSION optarg st =
     (case parse_version optarg of
        None \<Rightarrow> Inl (ALICE_ERROR ''Invalid AIN version (parse error)'')
      | Some (major, minor) \<Rightarrow>
          if major < 4 \<or> major > 14
          then Inl (ALICE_ERROR ''Invalid AIN version (4-14 supported)'')
          else Inr (st\<lparr>major_version := major, minor_version := minor\<rparr>))"
| "handle_option c LOPT_SILENT optarg st = Inr (st\<lparr>sys_silent := True\<rparr>)"
| "handle_option c Unhandled optarg st = Inr st"

text \<open>The \<open>while (1)\<close> loop over the values returned by \<open>alice_getopt\<close>.\<close>

fun parse_options :: "'img collab \<Rightarrow> (getopt_code \<times> string) list \<Rightarrow> state \<Rightarrow> error + state" where
  "parse_options c [] st = Inr st"
| "parse_options c ((code, optarg) # rest) st =
     (case handle_option c code optarg st of
        Inl e \<Rightarrow> Inl e
      | Inr st' \<Rightarrow> parse_options c rest st')"

section \<open>\<open>command_ain_edit\<close>: the pipeline\<close>

type_synonym 'img run = "'img event list \<times> (error + int)"

text \<open>Lines 181 to 187: a new image, or the one read from \<open>argv[0]\<close>.\<close>

definition open_container :: "'img collab \<Rightarrow> state \<Rightarrow> string list \<Rightarrow> 'img event list \<times> (error + 'img)" where
  "open_container c st argv =
     (case argv of
        [] \<Rightarrow> ([Call_ain_new (major_version st) (minor_version st)],
               Inr (ain_new c (major_version st) (minor_version st)))
      | path # _ \<Rightarrow>
          (case ain_open c path of
             Inl err \<Rightarrow> ([Call_ain_open path],
                         Inl (ALICE_ERROR (''Failed to open ain file: '' @ ain_strerror c err)))
           | Inr ain \<Rightarrow> ([Call_ain_open path], Inr ain)))"

text \<open>The four cases of the dispatch \<open>switch\<close>: the call made, and what it returns.\<close>

definition edit_call :: "32 word \<Rightarrow> input \<Rightarrow> 'img event" where
  "edit_call fl i =
     (case type i of
        IN_CODE \<Rightarrow> Call_asm_assemble_jam (filename i) fl
      | IN_JAF \<Rightarrow> Call_jaf_build [filename i]
      | IN_TEXT \<Rightarrow> Call_read_text (filename i)
      | IN_DECL \<Rightarrow> Call_read_declarations (filename i))"

definition apply_input :: "'img collab \<Rightarrow> ambient \<Rightarrow> 32 word \<Rightarrow> input \<Rightarrow> 'img \<Rightarrow> 'img option" where
  "apply_input c amb fl i ain =
     (case type i of
        IN_CODE \<Rightarrow> asm_assemble_jam c amb (filename i) ain fl
      | IN_JAF \<Rightarrow> jaf_build c amb ain [filename i]
      | IN_TEXT \<Rightarrow> read_text c amb (filename i) ain
      | IN_DECL \<Rightarrow> read_declarations c amb (filename i) ain)"

text \<open>The loop \<open>for (int i = 0; i < nr_inputs; i++)\<close>, started at index \<open>i\<close>.\<close>

function dispatch :: "'img collab \<Rightarrow> ambient \<Rightarrow> 32 word \<Rightarrow> input_queue \<Rightarrow> nat \<Rightarrow> 'img
    \<Rightarrow> 'img event list \<times> (error + 'img)" where
  "dispatch c amb fl q i ain =
     (if i < nr_inputs q then
        (case apply_input c amb fl (inputs q ! i) ain of
           None \<Rightarrow> ([edit_call fl (inputs q ! i)], Inl Collaborator_failure)
         | Some ain' \<Rightarrow>
             (case dispatch c amb fl q (i + 1) ain' of
                (evs, r) \<Rightarrow> (edit_call fl (inputs q ! i) # evs, r)))
      else ([], Inr ain))"
  by pat_completeness auto
termination
  by (relation "measure (\<lambda>(c, amb, fl, q, i, ain). nr_inputs q - i)") auto

text \<open>The label \<open>write_ain_file\<close>.\<close>

definition write_ain_file :: "'img collab \<Rightarrow> ambient \<Rightarrow> string \<Rightarrow> 'img \<Rightarrow> 'img run" where
  "write_ain_file c amb out ain =
     (if ain_write c amb out ain
      then ([NOTICE ''Writing AIN file...'', Call_ain_write out ain, Call_ain_free], Inr 0)
      else ([NOTICE ''Writing AIN file...'', Call_ain_write out ain], Inl Collaborator_failure))"

definition emit :: "'img event list \<Rightarrow> 'img event list \<times> 'a \<Rightarrow> 'img event list \<times> 'a" where
  "emit evs r = (evs @ fst r, snd r)"

text \<open>
  Lines 177 to 179, the output path, and lines 190 to 220 on the image after
  \<open>ain_init_member_functions\<close>: transcode and write, or dispatch the queue and write.
\<close>

definition output_path :: "state \<Rightarrow> string" where
  "output_path st = (case output_file st of None \<Rightarrow> ''out.ain'' | Some f \<Rightarrow> f)"

definition transcode_or_edit :: "'img collab \<Rightarrow> state \<Rightarrow> 'img \<Rightarrow> 'img run" where
  "transcode_or_edit c st ain =
     (let out = output_path st;
          amb = ambient_of st
      in if transcode st then
           emit ((if nr_inputs (queue st) > 0
                  then [WARNING ''Input files specified on the command line are ignored in --transcode mode'']
                  else [])
                 @ [Call_ain_transcode (input_encoding st) (output_encoding st)])
             (write_ain_file c amb out (ain_transcode c amb ain))
         else
           (case dispatch c amb (flags st) (queue st) 0 ain of
              (evs, Inl e) \<Rightarrow> (evs, Inl e)
            | (evs, Inr ain') \<Rightarrow> emit evs (write_ain_file c amb out ain')))"

text \<open>Lines 177 to 220: what runs when no project file was given.\<close>

definition pipeline :: "'img collab \<Rightarrow> state \<Rightarrow> string list \<Rightarrow> 'img run" where
  "pipeline c st argv =
     (case open_container c st argv of
        (evs, Inl e) \<Rightarrow> (evs, Inl e)
      | (evs, Inr ain) \<Rightarrow>
          emit (evs @ [Call_ain_init_member_functions])
            (transcode_or_edit c st (ain_init_member_functions c (ambient_of st) ain)))"

text \<open>Lines 161 to 220: what runs once the options are read. \<open>argv\<close> holds the positional arguments.\<close>

definition execute :: "'img collab \<Rightarrow> state \<Rightarrow> string list \<Rightarrow> 'img run" where
  "execute c st argv =
     (if length argv > 1 then ([], Inl (USAGE_ERROR ''Too many arguments.''))
      else
        (case project_file st of
           Some pf \<Rightarrow>
             ((if nr_inputs (queue st) > 0
               then [WARNING ''Input files specified on the command line are ignored in --project mode'']
               else [])
              @ [Call_pje_build pf (major_version st) (minor_version st)], Inr 0)
         | None \<Rightarrow> pipeline c st argv))"

definition command_ain_edit :: "'img collab \<Rightarrow> (getopt_code \<times> string) list \<Rightarrow> string list \<Rightarrow> 'img run" where
  "command_ain_edit c opts argv =
     (case parse_options c opts init_state of
        Inl e \<Rightarrow> ([], Inl e)
      | Inr st \<Rightarrow> execute c st argv)"

section \<open>Reading a command line\<close>

text \<open>
  What a list of options asks for, read off the list itself: the arguments of the project
  options, and the edit requests in the order the options appear.
\<close>

definition project_args :: "(getopt_code \<times> string) list \<Rightarrow> string list" where
  "project_args opts = map snd (filter (\<lambda>x. fst x = Short_p \<or> fst x = LOPT_PROJECT) opts)"

fun edit_request :: "getopt_code \<times> string \<Rightarrow> input list" where
  "edit_request (Short_c, f) = [\<lparr>type = IN_CODE, filename = f\<rparr>]"
| "edit_request (LOPT_CODE, f) = [\<lparr>type = IN_CODE, filename = f\<rparr>]"
| "edit_request (LOPT_JAF, f) = [\<lparr>type = IN_JAF, filename = f\<rparr>]"
| "edit_request (Short_j, f) = [\<lparr>type = IN_DECL, filename = f\<rparr>]"
| "edit_request (LOPT_JSON, f) = [\<lparr>type = IN_DECL, filename = f\<rparr>]"
| "edit_request (Short_t, f) = [\<lparr>type = IN_TEXT, filename = f\<rparr>]"
| "edit_request (LOPT_TEXT, f) = [\<lparr>type = IN_TEXT, filename = f\<rparr>]"
| "edit_request (_, f) = []"

definition edit_requests :: "(getopt_code \<times> string) list \<Rightarrow> input list" where
  "edit_requests opts = concat (map edit_request opts)"

text \<open>
  The version a list of options asks for, starting from a default: each version option
  that parses replaces it, so the last one counts.
\<close>

fun requested_version :: "(getopt_code \<times> string) list \<Rightarrow> int \<times> int \<Rightarrow> int \<times> int" where
  "requested_version [] v = v"
| "requested_version ((code, arg) # opts) v =
     requested_version opts
       (if code = LOPT_AIN_VERSION
        then (case parse_version arg of None \<Rightarrow> v | Some v' \<Rightarrow> v')
        else v)"

text \<open>The supported range of the major version.\<close>

definition version_ok :: "state \<Rightarrow> bool" where
  "version_ok st = (4 \<le> major_version st \<and> major_version st \<le> 14)"

text \<open>Applying requests one at a time, each to the image the one before left.\<close>

fun apply_all :: "'img collab \<Rightarrow> ambient \<Rightarrow> 32 word \<Rightarrow> input list \<Rightarrow> 'img \<Rightarrow> 'img option" where
  "apply_all c amb fl [] ain = Some ain"
| "apply_all c amb fl (r # rs) ain =
     (case apply_input c amb fl r ain of
        None \<Rightarrow> None
      | Some ain' \<Rightarrow> apply_all c amb fl rs ain')"

text \<open>The same loop over a list of requests instead of the array and its counter.\<close>

fun dispatch_list :: "'img collab \<Rightarrow> ambient \<Rightarrow> 32 word \<Rightarrow> input list \<Rightarrow> 'img
    \<Rightarrow> 'img event list \<times> (error + 'img)" where
  "dispatch_list c amb fl [] ain = ([], Inr ain)"
| "dispatch_list c amb fl (r # rs) ain =
     (case apply_input c amb fl r ain of
        None \<Rightarrow> ([edit_call fl r], Inl Collaborator_failure)
      | Some ain' \<Rightarrow>
          (case dispatch_list c amb fl rs ain' of
             (evs, res) \<Rightarrow> (edit_call fl r # evs, res)))"

text \<open>The array has its 256 cells and the counter stays inside it.\<close>

definition queue_ok :: "input_queue \<Rightarrow> bool" where
  "queue_ok q = (length (inputs q) = 256 \<and> nr_inputs q \<le> 256)"

text \<open>Consecutive calls of \<open>push_input\<close>, as the option loop makes them.\<close>

fun push_inputs :: "(input_type \<times> string) list \<Rightarrow> input_queue \<Rightarrow> error option \<times> input_queue" where
  "push_inputs [] q = (None, q)"
| "push_inputs ((t, f) # rs) q =
     (case push_input t f q of
        (Some e, q') \<Rightarrow> (Some e, q')
      | (None, q') \<Rightarrow> push_inputs rs q')"

text \<open>A decimal numeral of one or two digits, and its value.\<close>

definition numeral2 :: "string \<Rightarrow> bool" where
  "numeral2 ds = (ds \<noteq> [] \<and> length ds \<le> 2 \<and> list_all isdigit ds)"

definition decimal :: "string \<Rightarrow> int" where
  "decimal ds = foldl (\<lambda>n c. 10 * n + digit_value c) 0 ds"

section \<open>A sample implementation of the collaborators\<close>

text \<open>
  Modelled from the spec: a stand-in for the external collaborators, used to run the
  model on concrete command lines. An image is its format version and the operations
  applied to it so far. Opening \<open>missing.ain\<close> fails with code 1, assembling \<open>bad.jam\<close>
  fails, every other call succeeds.
\<close>

datatype sample_image = Sample_image "int \<times> int" "string list"

fun applied :: "string \<Rightarrow> sample_image \<Rightarrow> sample_image" where
  "applied x (Sample_image v xs) = Sample_image v (xs @ [x])"

definition sample_collab :: "sample_image collab" where
  "sample_collab =
     \<lparr>ASM_RAW = 1,
      ain_new = (\<lambda>major minor. Sample_image (major, minor) []),
      ain_open = (\<lambda>path. if path = ''missing.ain'' then Inl 1 else Inr (Sample_image (12, 0) [''open''])),
      ain_strerror = (\<lambda>err. if err = 1 then ''file error'' else ''unknown error''),
      ain_init_member_functions = (\<lambda>amb. applied ''init''),
      ain_transcode = (\<lambda>amb. applied (''transcode to '' @ fst (snd amb))),
      asm_assemble_jam = (\<lambda>amb f ain fl. if f = ''bad.jam'' then None else Some (applied (''jam '' @ f) ain)),
      jaf_build = (\<lambda>amb ain fs. Some (applied (''jaf '' @ concat fs) ain)),
      read_text = (\<lambda>amb f ain. Some (applied (''text '' @ f) ain)),
      read_declarations = (\<lambda>amb f ain. Some (applied (''decl '' @ f) ain)),
      ain_write = (\<lambda>amb f ain. True)\<rparr>"

section \<open>Properties of \<open>parse_version\<close>\<close>

lemma isdigit_not_dot: "isdigit c \<Longrightarrow> c \<noteq> CHR ''.''"
  by (auto simp: isdigit_def)

lemma isdigit_not_space: "isdigit c \<Longrightarrow> \<not> isspace c"
  by (auto simp: isdigit_def isspace_def)

lemma isdigit_not_sign: "isdigit c \<Longrightarrow> c \<noteq> CHR ''-'' \<and> c \<noteq> CHR ''+''"
  by (auto simp: isdigit_def)

lemma atoi_digits_foldl:
  "list_all isdigit ds \<Longrightarrow> atoi_digits acc ds = foldl (\<lambda>n c. 10 * n + digit_value c) acc ds"
  by (induction ds arbitrary: acc) auto

lemma atoi_decimal:
  assumes "ds \<noteq> []" "list_all isdigit ds"
  shows "atoi ds = decimal ds"
proof -
  obtain c cs where ds: "ds = c # cs" using assms(1) by (cases ds) auto
  have c: "isdigit c" using assms(2) ds by simp
  have "dropWhile isspace ds = ds"
    using c ds by (simp add: isdigit_not_space)
  moreover have "atoi_digits 0 ds = decimal ds"
    using assms(2) by (simp add: atoi_digits_foldl decimal_def)
  ultimately show ?thesis
    using c ds isdigit_not_sign [OF c] by (simp add: atoi_def)
qed

lemma atoi_zero: "atoi ''0'' = 0"
  by (simp add: atoi_def isspace_def isdigit_def digit_value_def)

lemma strchr_None: "c \<notin> set s \<Longrightarrow> strchr s c = None"
  by (simp add: strchr_def)

lemma takeWhile_first: "c \<notin> set m \<Longrightarrow> takeWhile (\<lambda>x. x \<noteq> c) (m @ c # n) = m"
  by (induction m) auto

lemma dropWhile_first: "c \<notin> set m \<Longrightarrow> dropWhile (\<lambda>x. x \<noteq> c) (m @ c # n) = c # n"
  by (induction m) auto

lemma strchr_first: "c \<notin> set m \<Longrightarrow> strchr (m @ c # n) c = Some (length m)"
  by (simp add: strchr_def takeWhile_first)

lemma digits_no_dot: "list_all isdigit ds \<Longrightarrow> CHR ''.'' \<notin> set ds"
  by (auto simp: list_all_iff dest: isdigit_not_dot)

lemma parse_version_major_only:
  assumes "numeral2 m"
  shows "parse_version m = Some (decimal m, 0)"
  using assms
  by (simp add: parse_version_def numeral2_def strchr_None digits_no_dot strlen_def
      atoi_decimal atoi_zero)

lemma parse_version_major_minor:
  assumes "numeral2 m" "numeral2 n"
  shows "parse_version (m @ ''.'' @ n) = Some (decimal m, decimal n)"
  using assms
  by (simp add: parse_version_def numeral2_def strchr_first digits_no_dot strlen_def
      atoi_decimal)

lemma parse_version_by_length:
  "parse_version s =
     (if 2 < length (takeWhile (\<lambda>x. x \<noteq> CHR ''.'') s) \<or>
         2 < length (drop 1 (dropWhile (\<lambda>x. x \<noteq> CHR ''.'') s))
      then None
      else Some (atoi (takeWhile (\<lambda>x. x \<noteq> CHR ''.'') s),
                 if CHR ''.'' \<in> set s
                 then atoi (drop 1 (dropWhile (\<lambda>x. x \<noteq> CHR ''.'') s)) else 0))"
proof (cases "CHR ''.'' \<in> set s")
  case True
  then obtain m n where s: "s = m @ CHR ''.'' # n" and m: "CHR ''.'' \<notin> set m"
    by (meson split_list_first)
  show ?thesis
    using m by (simp add: s parse_version_def strchr_first strlen_def takeWhile_first dropWhile_first)
next
  case False
  then have tw: "takeWhile (\<lambda>x. x \<noteq> CHR ''.'') s = s"
    and dw: "dropWhile (\<lambda>x. x \<noteq> CHR ''.'') s = []"
    by auto
  show ?thesis
    by (simp add: parse_version_def strchr_None [OF False] False strlen_def tw dw atoi_zero)
qed

text \<open>
  C1, as amended. For every string \<open>M\<close> or \<open>M.N\<close> whose components are decimal numerals
  of one or two digits, \<open>parse_version\<close> succeeds with \<open>(M, 0)\<close> or \<open>(M, N)\<close>. It fails
  exactly when the text before the first dot (the whole string when there is no dot) or
  the text after the first dot is longer than two characters. Every other string is
  accepted, whatever its characters: each component is read by \<open>atoi\<close>, and a missing
  minor component is 0.
\<close>

theorem parse_version_accepts_by_length:
  "(numeral2 m \<longrightarrow> parse_version m = Some (decimal m, 0)) \<and>
   (numeral2 m \<and> numeral2 n \<longrightarrow> parse_version (m @ ''.'' @ n) = Some (decimal m, decimal n)) \<and>
   parse_version s =
     (if 2 < length (takeWhile (\<lambda>x. x \<noteq> CHR ''.'') s) \<or>
         2 < length (drop 1 (dropWhile (\<lambda>x. x \<noteq> CHR ''.'') s))
      then None
      else Some (atoi (takeWhile (\<lambda>x. x \<noteq> CHR ''.'') s),
                 if CHR ''.'' \<in> set s
                 then atoi (drop 1 (dropWhile (\<lambda>x. x \<noteq> CHR ''.'') s)) else 0))"
  using parse_version_major_only [of m] parse_version_major_minor [of m n]
    parse_version_by_length [of s]
  by blast

theorem parse_version_accepts_by_length_witness:
  "numeral2 ''12'' \<and> numeral2 ''34'' \<and>
   parse_version ''12'' = Some (12, 0) \<and>
   parse_version ''12.34'' = Some (12, 34) \<and>
   parse_version ''123.4'' = None"
  using parse_version_accepts_by_length [of "''12''" "''34''" "''123.4''"]
  by (simp add: numeral2_def isdigit_def decimal_def digit_value_def)

text \<open>
  C1 as stated fails: a string with two dots and a string of letters are both accepted.
\<close>

theorem parse_version_accepts_malformed:
  "1 < count_list ''1..'' CHR ''.'' \<and> parse_version ''1..'' = Some (1, 0) \<and>
   \<not> list_all isdigit ''ab'' \<and> parse_version ''ab'' = Some (0, 0)"
  by (simp add: parse_version_def strchr_def strlen_def atoi_def isspace_def isdigit_def
      digit_value_def)

section \<open>The buffers of \<open>parse_version\<close>\<close>

lemma load_string_terminated: "NUL \<notin> set xs \<Longrightarrow> load_string (xs @ NUL # ys) = Inr xs"
  by (simp add: load_string_def takeWhile_first)

lemma load_string_Inr: "NUL \<in> set b \<Longrightarrow> \<exists>s. load_string b = Inr s"
  by (simp add: load_string_def)

lemma read_versions_Inr:
  "NUL \<in> set a \<Longrightarrow> NUL \<in> set b \<Longrightarrow> \<exists>r. read_versions a b = Inr r"
  by (auto simp: read_versions_def dest!: load_string_Inr)

lemma read_versions_terminated:
  "NUL \<notin> set xs \<Longrightarrow> NUL \<notin> set ys \<Longrightarrow>
   read_versions (xs @ NUL # r1) (ys @ NUL # r2) = Inr (Some (atoi xs, atoi ys))"
  by (simp add: read_versions_def load_string_terminated)

lemma strcpy_fits:
  "length src < length dst \<Longrightarrow> strcpy dst src = Inr (src @ NUL # drop (Suc (length src)) dst)"
  by (simp add: strcpy_def)

lemma strncpy_prefix:
  "length m \<le> length dst \<Longrightarrow> strncpy dst (m @ n) (length m) = Inr (m @ drop (length m) dst)"
  by (simp add: strncpy_def)

lemma store_after_prefix:
  "length m < length dst \<Longrightarrow>
   store (m @ drop (length m) dst) (length m) c = Inr (m @ c # drop (Suc (length m)) dst)"
proof -
  assume a: "length m < length dst"
  then have "drop (length m) dst = dst ! length m # drop (Suc (length m)) dst"
    by (simp add: Cons_nth_drop_Suc)
  then have "(m @ drop (length m) dst)[length m := c] = m @ c # drop (Suc (length m)) dst"
    by (simp add: list_update_append)
  then show ?thesis
    using a by (simp add: store_def)
qed

lemma parse_version_buf_dot:
  assumes mj: "length major_str = 3" and mn: "length minor_str = 3"
    and dot: "CHR ''.'' \<notin> set m" and lm: "length m \<le> 2" and ln: "length n \<le> 2"
  shows "parse_version_buf major_str minor_str (m @ CHR ''.'' # n) =
           read_versions (m @ NUL # drop (Suc (length m)) major_str)
                         (n @ NUL # drop (Suc (length n)) minor_str)"
proof -
  have 1: "strncpy major_str (m @ CHR ''.'' # n) (length m) = Inr (m @ drop (length m) major_str)"
    using mj lm by (simp add: strncpy_prefix)
  have 2: "store (m @ drop (length m) major_str) (length m) NUL
             = Inr (m @ NUL # drop (Suc (length m)) major_str)"
    using mj lm by (simp add: store_after_prefix)
  have 3: "strcpy minor_str n = Inr (n @ NUL # drop (Suc (length n)) minor_str)"
    using mn ln by (simp add: strcpy_fits)
  show ?thesis
    using lm ln by (simp add: parse_version_buf_def strchr_first [OF dot] strlen_def 1 2 3)
qed

lemma parse_version_buf_nodot:
  assumes mj: "length major_str = 3" and mn: "length minor_str = 3"
    and dot: "CHR ''.'' \<notin> set s" and ls: "length s \<le> 2"
  shows "parse_version_buf major_str minor_str s =
           read_versions (s @ NUL # drop (Suc (length s)) major_str)
                         (''0'' @ NUL # drop 2 minor_str)"
proof -
  have 1: "strcpy major_str s = Inr (s @ NUL # drop (Suc (length s)) major_str)"
    using mj ls by (simp add: strcpy_fits)
  have 2: "strcpy minor_str ''0'' = Inr (''0'' @ NUL # drop 2 minor_str)"
    using mn by (simp add: strcpy_def numeral_2_eq_2)
  show ?thesis
    using ls by (simp add: parse_version_buf_def strchr_None [OF dot] strlen_def 1 2)
qed

lemma parse_version_buf_cases:
  assumes mj: "length major_str = 3" and mn: "length minor_str = 3"
  shows "parse_version_buf major_str minor_str str = Inr None \<and> parse_version str = None \<or>
         (\<exists>a b r1 r2. parse_version_buf major_str minor_str str = read_versions (a @ NUL # r1) (b @ NUL # r2)
            \<and> length (a @ NUL # r1) = 3 \<and> length (b @ NUL # r2) = 3
            \<and> (NUL \<notin> set str \<longrightarrow> NUL \<notin> set a \<and> NUL \<notin> set b \<and> parse_version str = Some (atoi a, atoi b)))"
proof (cases "CHR ''.'' \<in> set str")
  case True
  then obtain m n where s: "str = m @ CHR ''.'' # n" and m: "CHR ''.'' \<notin> set m"
    by (meson split_list_first)
  show ?thesis
  proof (cases "length m \<le> 2 \<and> length n \<le> 2")
    case True
    then have "parse_version_buf major_str minor_str str =
           read_versions (m @ NUL # drop (Suc (length m)) major_str)
                         (n @ NUL # drop (Suc (length n)) minor_str)"
      using parse_version_buf_dot [OF mj mn m] s by simp
    moreover have "parse_version str = Some (atoi m, atoi n)"
      using True by (simp add: s parse_version_def strchr_first [OF m] strlen_def)
    ultimately show ?thesis
      using True mj mn s by fastforce
  next
    case False
    then show ?thesis
      by (auto simp add: s parse_version_buf_def parse_version_def strchr_first [OF m] strlen_def)
  qed
next
  case False
  show ?thesis
  proof (cases "length str \<le> 2")
    case True
    then have "parse_version_buf major_str minor_str str =
           read_versions (str @ NUL # drop (Suc (length str)) major_str)
                         (''0'' @ NUL # drop 2 minor_str)"
      using parse_version_buf_nodot [OF mj mn False] by simp
    moreover have "parse_version str = Some (atoi str, atoi ''0'')"
      using True by (simp add: parse_version_def strchr_None [OF False] strlen_def)
    moreover have "NUL \<notin> set ''0''"
      by (simp add: NUL_def)
    ultimately show ?thesis
      using True mj mn by fastforce
  next
    case False
    then show ?thesis
      using \<open>CHR ''.'' \<notin> set str\<close>
      by (simp add: parse_version_buf_def parse_version_def strchr_None strlen_def)
  qed
qed

lemma parse_version_buf_no_fault:
  assumes "length major_str = 3" "length minor_str = 3"
  shows "\<exists>r. parse_version_buf major_str minor_str str = Inr r"
  using parse_version_buf_cases [OF assms, of str]
  by (elim disjE exE conjE) (auto intro!: read_versions_Inr)

lemma parse_version_buf_refines:
  assumes "length major_str = 3" "length minor_str = 3" "NUL \<notin> set str"
  shows "parse_version_buf major_str minor_str str = Inr (parse_version str)"
proof -
  from parse_version_buf_cases [OF assms(1,2), of str]
  show ?thesis
  proof (elim disjE exE conjE)
    assume "parse_version_buf major_str minor_str str = Inr None" "parse_version str = None"
    then show ?thesis by simp
  next
    fix a b r1 r2
    assume "parse_version_buf major_str minor_str str = read_versions (a @ NUL # r1) (b @ NUL # r2)"
      and "NUL \<notin> set str \<longrightarrow> NUL \<notin> set a \<and> NUL \<notin> set b \<and> parse_version str = Some (atoi a, atoi b)"
    then show ?thesis
      using assms(3) by (simp add: read_versions_terminated)
  qed
qed

text \<open>
  C10. With both arrays of three cells, no copy made by \<open>parse_version\<close> writes outside
  its array and no read runs past its end, whatever the input string and whatever the
  arrays held before: every copy follows a guard that has bounded the copied text to two
  characters, which with the terminator fills at most the three cells. On a string
  without an embedded NUL the result is the one of \<open>parse_version\<close>.
\<close>

theorem parse_version_never_overflows:
  assumes "length major_str = 3" "length minor_str = 3"
  shows "parse_version_buf major_str minor_str str \<noteq> Inl Buffer_overflow \<and>
         (NUL \<notin> set str \<longrightarrow> parse_version_buf major_str minor_str str = Inr (parse_version str))"
  using parse_version_buf_no_fault [OF assms, of str] parse_version_buf_refines [OF assms, of str]
  by auto

theorem parse_version_never_overflows_witness:
  "length ''xyz'' = 3 \<and> length ''abc'' = 3 \<and> NUL \<notin> set ''12.34'' \<and>
   parse_version_buf ''xyz'' ''abc'' ''12.34'' \<noteq> Inl Buffer_overflow \<and>
   parse_version_buf ''xyz'' ''abc'' ''12.34'' = Inr (parse_version ''12.34'')"
proof -
  have h: "length ''xyz'' = 3" "length ''abc'' = 3" "NUL \<notin> set ''12.34''"
    by (simp_all add: NUL_def)
  show ?thesis
    using h parse_version_never_overflows [OF h(1,2), of "''12.34''"] by blast
qed

section \<open>Properties of the input queue\<close>

lemma queue_ok_empty: "queue_ok empty_queue"
  by (simp add: queue_ok_def empty_queue_def)

lemma queued_empty: "queued empty_queue = []"
  by (simp add: queued_def empty_queue_def)

lemma push_input_full:
  "256 \<le> nr_inputs q \<Longrightarrow> push_input t f q = (Some (ALICE_ERROR ''Too many inputs''), q)"
  by (simp add: push_input_def)

lemma push_input_room:
  assumes "queue_ok q" "nr_inputs q < 256"
  shows "fst (push_input t f q) = None"
    and "queue_ok (snd (push_input t f q))"
    and "nr_inputs (snd (push_input t f q)) = Suc (nr_inputs q)"
    and "queued (snd (push_input t f q)) = queued q @ [\<lparr>type = t, filename = f\<rparr>]"
  using assms
  by (simp_all add: push_input_def queue_ok_def queued_def take_Suc_conv_app_nth)

lemma push_input_cases:
  "queue_ok q \<Longrightarrow> queue_ok (snd (push_input t f q))"
  by (cases "nr_inputs q < 256") (simp_all add: push_input_room push_input_full)

lemma push_inputs_room:
  "queue_ok q \<Longrightarrow> nr_inputs q + length rs \<le> 256 \<Longrightarrow>
     fst (push_inputs rs q) = None \<and>
     nr_inputs (snd (push_inputs rs q)) = nr_inputs q + length rs \<and>
     queued (snd (push_inputs rs q)) = queued q @ map (\<lambda>(t, f). \<lparr>type = t, filename = f\<rparr>) rs"
proof (induction rs arbitrary: q)
  case Nil
  then show ?case by simp
next
  case (Cons r rs)
  obtain t f where r: "r = (t, f)" by (cases r)
  have lt: "nr_inputs q < 256" using Cons.prems by simp
  note p = push_input_room [OF Cons.prems(1) lt, of t f]
  obtain q' where q': "push_input t f q = (None, q')"
    using p(1) by (cases "push_input t f q") auto
  have "nr_inputs q' + length rs \<le> 256" "queue_ok q'"
    using p q' Cons.prems by simp_all
  from Cons.IH [OF this(2) this(1)] show ?case
    using p q' by (simp add: r)
qed

lemma push_inputs_ok: "queue_ok q \<Longrightarrow> queue_ok (snd (push_inputs rs q))"
proof (induction rs arbitrary: q)
  case Nil
  then show ?case by simp
next
  case (Cons r rs)
  obtain t f where r: "r = (t, f)" by (cases r)
  obtain e q' where p: "push_input t f q = (e, q')" by (cases "push_input t f q")
  have "queue_ok q'" using push_input_cases [OF Cons.prems, of t f] p by simp
  then show ?case
    using Cons.IH [of q'] p by (cases e) (simp_all add: r)
qed

lemma queued_length: "queue_ok q \<Longrightarrow> length (queued q) = nr_inputs q"
  by (simp add: queue_ok_def queued_def)

text \<open>
  C7. From the empty queue, any number of pushes up to 256 succeeds, and the queue then
  holds exactly the pushed requests in order, its length being the number of pushes; the
  counter never passes 256, however many pushes are attempted; and after exactly 256
  pushes the next one reports the fatal error \<open>Too many inputs\<close> and leaves the queue as
  it was, which ends the option loop with that error.
\<close>

theorem input_queue_capacity:
  "(length rs \<le> 256 \<longrightarrow>
      fst (push_inputs rs empty_queue) = None \<and>
      queued (snd (push_inputs rs empty_queue)) = map (\<lambda>(t, f). \<lparr>type = t, filename = f\<rparr>) rs \<and>
      nr_inputs (snd (push_inputs rs empty_queue)) = length rs) \<and>
   nr_inputs (snd (push_inputs rs empty_queue)) \<le> 256 \<and>
   length (queued (snd (push_inputs rs empty_queue))) = nr_inputs (snd (push_inputs rs empty_queue)) \<and>
   (length rs = 256 \<longrightarrow>
      push_input t f (snd (push_inputs rs empty_queue))
        = (Some (ALICE_ERROR ''Too many inputs''), snd (push_inputs rs empty_queue)) \<and>
      queue_input t f (st\<lparr>queue := snd (push_inputs rs empty_queue)\<rparr>)
        = Inl (ALICE_ERROR ''Too many inputs''))"
proof -
  have ok: "queue_ok (snd (push_inputs rs empty_queue))"
    by (rule push_inputs_ok [OF queue_ok_empty])
  have room: "length rs \<le> 256 \<Longrightarrow>
      fst (push_inputs rs empty_queue) = None \<and>
      nr_inputs (snd (push_inputs rs empty_queue)) = length rs \<and>
      queued (snd (push_inputs rs empty_queue)) = map (\<lambda>(t, f). \<lparr>type = t, filename = f\<rparr>) rs"
    using push_inputs_room [OF queue_ok_empty, of rs]
    by (simp add: empty_queue_def queued_empty [unfolded empty_queue_def])
  have full: "length rs = 256 \<Longrightarrow>
      push_input t f (snd (push_inputs rs empty_queue))
        = (Some (ALICE_ERROR ''Too many inputs''), snd (push_inputs rs empty_queue))"
    using room by (simp add: push_input_full)
  have fatal: "length rs = 256 \<Longrightarrow>
      queue_input t f (st\<lparr>queue := snd (push_inputs rs empty_queue)\<rparr>)
        = Inl (ALICE_ERROR ''Too many inputs'')"
    using full by (simp add: queue_input_def)
  show ?thesis
    using ok room full fatal queued_length [OF ok] by (simp add: queue_ok_def)
qed

theorem input_queue_capacity_witness:
  "length (replicate 256 (IN_CODE, ''a.jam'')) \<le> 256 \<and>
   fst (push_inputs (replicate 256 (IN_CODE, ''a.jam'')) empty_queue) = None \<and>
   nr_inputs (snd (push_inputs (replicate 256 (IN_CODE, ''a.jam'')) empty_queue)) = 256 \<and>
   push_input IN_TEXT ''t.txt'' (snd (push_inputs (replicate 256 (IN_CODE, ''a.jam'')) empty_queue))
     = (Some (ALICE_ERROR ''Too many inputs''),
        snd (push_inputs (replicate 256 (IN_CODE, ''a.jam'')) empty_queue))"
proof -
  have len: "length (replicate 256 (IN_CODE, ''a.jam'')) = 256"
    by (simp only: length_replicate)
  show ?thesis
    using input_queue_capacity [of "replicate 256 (IN_CODE, ''a.jam'')" IN_TEXT "''t.txt''" init_state]
    unfolding len by blast
qed

section \<open>What reading the options leaves in the configuration\<close>

lemma queue_input_Inr:
  assumes "queue_input t f st0 = Inr st1" "queue_ok (queue st0)"
  shows "nr_inputs (queue st0) < 256"
    and "st1 = st0\<lparr>queue := snd (push_input t f (queue st0))\<rparr>"
    and "queue_ok (queue st1)"
    and "queued (queue st1) = queued (queue st0) @ [\<lparr>type = t, filename = f\<rparr>]"
proof -
  show lt: "nr_inputs (queue st0) < 256"
    using assms(1) by (auto simp: queue_input_def push_input_def split: if_splits)
  show eq: "st1 = st0\<lparr>queue := snd (push_input t f (queue st0))\<rparr>"
    using assms(1) by (auto simp: queue_input_def split: prod.splits option.splits)
  show "queue_ok (queue st1)"
    using push_input_room(2) [OF assms(2) lt, of t f] by (simp add: eq)
  show "queued (queue st1) = queued (queue st0) @ [\<lparr>type = t, filename = f\<rparr>]"
    using push_input_room(4) [OF assms(2) lt, of t f] by (simp add: eq)
qed

lemma queue_input_fields:
  assumes "queue_input t f st0 = Inr st1"
  shows "project_file st1 = project_file st0" "transcode st1 = transcode st0"
    "major_version st1 = major_version st0" "minor_version st1 = minor_version st0"
  using assms by (auto simp: queue_input_def split: prod.splits option.splits)

lemma queue_input_full:
  "256 \<le> nr_inputs (queue st) \<Longrightarrow> queue_input t f st = Inl (ALICE_ERROR ''Too many inputs'')"
  by (simp add: queue_input_def push_input_full)

lemma handle_option_version:
  assumes "handle_option c code arg st0 = Inr st1"
  shows "(major_version st1, minor_version st1)
           = requested_version [(code, arg)] (major_version st0, minor_version st0)"
    and "version_ok st0 \<Longrightarrow> version_ok st1"
  using assms
  by (cases code;
      auto simp: version_ok_def dest: queue_input_fields split: option.splits if_splits)+

lemma handle_option_flags:
  assumes "handle_option c code arg st0 = Inr st1"
  shows "flags st1 = (if code = LOPT_RAW then flags st0 OR ASM_RAW c else flags st0)"
    and "project_file st1 = (if code = Short_p \<or> code = LOPT_PROJECT then Some arg else project_file st0)"
    and "transcode st1 = (transcode st0 \<or> code = LOPT_TRANSCODE)"
  using assms
  by (cases code;
      auto simp: queue_input_def split: option.splits if_splits prod.splits)+

lemma handle_option_queue:
  assumes "handle_option c code arg st0 = Inr st1" "queue_ok (queue st0)"
  shows "queue_ok (queue st1)"
    and "queued (queue st1) = queued (queue st0) @ edit_request (code, arg)"
  using assms
  by (cases code;
      auto dest: queue_input_Inr(3,4) split: option.splits if_splits)+


lemma project_args_Cons:
  "project_args ((code, arg) # opts) =
     (if code = Short_p \<or> code = LOPT_PROJECT then arg # project_args opts else project_args opts)"
  by (simp add: project_args_def)

lemma edit_requests_Cons: "edit_requests (x # opts) = edit_request x @ edit_requests opts"
  by (simp add: edit_requests_def)

lemma parse_options_config:
  "parse_options c opts st0 = Inr st \<Longrightarrow> queue_ok (queue st0) \<Longrightarrow>
     queue_ok (queue st) \<and>
     queued (queue st) = queued (queue st0) @ edit_requests opts \<and>
     project_file st = (if project_args opts = [] then project_file st0 else Some (last (project_args opts))) \<and>
     transcode st = (transcode st0 \<or> LOPT_TRANSCODE \<in> fst ` set opts) \<and>
     (version_ok st0 \<longrightarrow> version_ok st) \<and>
     (major_version st, minor_version st)
        = requested_version opts (major_version st0, minor_version st0) \<and>
     flags st = (if LOPT_RAW \<in> fst ` set opts then flags st0 OR ASM_RAW c else flags st0)"
proof (induction opts arbitrary: st0)
  case Nil
  then show ?case by (simp add: edit_requests_def project_args_def)
next
  case (Cons x opts)
  obtain code arg where x: "x = (code, arg)" by (cases x)
  from Cons.prems(1) obtain st1
    where h: "handle_option c code arg st0 = Inr st1" and p: "parse_options c opts st1 = Inr st"
    by (auto simp: x split: sum.splits)
  note q = handle_option_queue [OF h Cons.prems(2)]
  note f = handle_option_flags [OF h]
  note v = handle_option_version [OF h]
  have v': "requested_version opts (major_version st1, minor_version st1)
              = requested_version (x # opts) (major_version st0, minor_version st0)"
    by (simp add: v(1) x)
  from Cons.IH [OF p q(1)] show ?case
    using q(2) f v(2) unfolding v'
    by (auto simp add: x edit_requests_Cons project_args_Cons or.assoc)
qed

section \<open>The dispatch loop\<close>

declare dispatch.simps [simp del]

lemma dispatch_as_list:
  "nr_inputs q \<le> length (inputs q) \<Longrightarrow> i \<le> nr_inputs q \<Longrightarrow>
     dispatch c amb fl q i ain = dispatch_list c amb fl (drop i (queued q)) ain"
proof (induction c amb fl q i ain rule: dispatch.induct)
  case (1 c amb fl q i ain)
  show ?case
  proof (cases "i < nr_inputs q")
    case True
    then have d: "drop i (queued q) = inputs q ! i # drop (Suc i) (queued q)"
      using "1.prems" by (simp add: queued_def Cons_nth_drop_Suc [symmetric])
    show ?thesis
    proof (cases "apply_input c amb fl (inputs q ! i) ain")
      case None
      then show ?thesis
        using True by (subst dispatch.simps) (simp add: d)
    next
      case (Some ain')
      have "dispatch c amb fl q (i + 1) ain' = dispatch_list c amb fl (drop (i + 1) (queued q)) ain'"
        using "1.IH" [OF True Some] "1.prems" True by simp
      then show ?thesis
        using True Some by (subst dispatch.simps) (simp add: d)
    qed
  next
    case False
    then have "drop i (queued q) = []"
      using "1.prems" by (simp add: queued_def)
    then show ?thesis
      using False by (subst dispatch.simps) simp
  qed
qed

lemma dispatch_list_result:
  "case apply_all c amb fl rs ain of
     Some ain' \<Rightarrow> dispatch_list c amb fl rs ain = (map (edit_call fl) rs, Inr ain')
   | None \<Rightarrow> (\<exists>k<length rs. dispatch_list c amb fl rs ain
                 = (map (edit_call fl) (take (Suc k) rs), Inl Collaborator_failure))"
proof (induction rs arbitrary: ain)
  case Nil
  then show ?case by simp
next
  case (Cons r rs)
  show ?case
  proof (cases "apply_input c amb fl r ain")
    case None
    then show ?thesis by auto
  next
    case (Some a)
    show ?thesis
    proof (cases "apply_all c amb fl rs a")
      case None
      with Cons.IH [of a] obtain k where "k < length rs"
        "dispatch_list c amb fl rs a = (map (edit_call fl) (take (Suc k) rs), Inl Collaborator_failure)"
        by auto
      then have "Suc k < length (r # rs) \<and> dispatch_list c amb fl (r # rs) ain
          = (map (edit_call fl) (take (Suc (Suc k)) (r # rs)), Inl Collaborator_failure)"
        using Some by simp
      then show ?thesis
        using Some None by (auto simp del: take_Suc_Cons dispatch_list.simps)
    next
      case (Some a')
      with Cons.IH [of a] show ?thesis
        using \<open>apply_input c amb fl r ain = Some a\<close> by simp
    qed
  qed
qed

lemma init_state_facts:
  "queue_ok (queue init_state)" "queued (queue init_state) = []"
  "project_file init_state = None" "\<not> transcode init_state" "version_ok init_state"
  "major_version init_state = 4" "minor_version init_state = 0" "flags init_state = 0"
  by (simp_all add: init_state_def queue_ok_empty queued_empty version_ok_def)

lemma configured:
  assumes "parse_options c opts init_state = Inr st"
  shows "queue_ok (queue st)"
    and "queued (queue st) = edit_requests opts"
    and "nr_inputs (queue st) = length (edit_requests opts)"
    and "project_file st = (if project_args opts = [] then None else Some (last (project_args opts)))"
    and "transcode st = (LOPT_TRANSCODE \<in> fst ` set opts)"
    and "version_ok st"
    and "(major_version st, minor_version st) = requested_version opts (4, 0)"
    and "flags st = (if LOPT_RAW \<in> fst ` set opts then ASM_RAW c else 0)"
  using parse_options_config [OF assms init_state_facts(1)] queued_length [of "queue st"]
  by (simp_all add: init_state_facts)

lemma command_configured:
  "parse_options c opts init_state = Inr st \<Longrightarrow> command_ain_edit c opts argv = execute c st argv"
  by (simp add: command_ain_edit_def)

section \<open>The parts of a run\<close>

lemma execute_project:
  "project_file st = Some pf \<Longrightarrow> length argv \<le> 1 \<Longrightarrow>
     execute c st argv =
       ((if nr_inputs (queue st) > 0
         then [WARNING ''Input files specified on the command line are ignored in --project mode'']
         else [])
        @ [Call_pje_build pf (major_version st) (minor_version st)], Inr 0)"
  by (simp add: execute_def)

lemma execute_pipeline:
  "project_file st = None \<Longrightarrow> length argv \<le> 1 \<Longrightarrow> execute c st argv = pipeline c st argv"
  by (simp add: execute_def)

lemma project_mode_run:
  assumes "parse_options c opts init_state = Inr st" "length argv \<le> 1" "project_args opts \<noteq> []"
  shows "command_ain_edit c opts argv =
           ((if edit_requests opts \<noteq> []
             then [WARNING ''Input files specified on the command line are ignored in --project mode'']
             else [])
            @ [Call_pje_build (last (project_args opts)) (major_version st) (minor_version st)], Inr 0)"
proof -
  have "project_file st = Some (last (project_args opts))"
    using configured(4) [OF assms(1)] assms(3) by simp
  then show ?thesis
    using configured(3) [OF assms(1)] assms(2)
    by (simp add: command_configured [OF assms(1)] execute_project)
qed

lemma transcode_path:
  assumes "transcode st"
  shows "transcode_or_edit c st ain =
     ((if nr_inputs (queue st) > 0
       then [WARNING ''Input files specified on the command line are ignored in --transcode mode'']
       else [])
      @ [Call_ain_transcode (input_encoding st) (output_encoding st),
         NOTICE ''Writing AIN file...'',
         Call_ain_write (output_path st) (ain_transcode c (ambient_of st) ain)]
      @ (if ain_write c (ambient_of st) (output_path st) (ain_transcode c (ambient_of st) ain)
         then [Call_ain_free] else []),
      if ain_write c (ambient_of st) (output_path st) (ain_transcode c (ambient_of st) ain)
      then Inr 0 else Inl Collaborator_failure)"
  using assms by (simp add: transcode_or_edit_def emit_def write_ain_file_def)

lemma pipeline_unfold:
  "pipeline c st argv =
     (case open_container c st argv of
        (evs, Inl e) \<Rightarrow> (evs, Inl e)
      | (evs, Inr ain) \<Rightarrow>
          emit (evs @ [Call_ain_init_member_functions])
            (transcode_or_edit c st (ain_init_member_functions c (ambient_of st) ain)))"
  by (simp add: pipeline_def)

lemma pipeline_run:
  assumes "parse_options c opts init_state = Inr st" "length argv \<le> 1" "project_args opts = []"
  shows "command_ain_edit c opts argv = pipeline c st argv"
  using configured(4) [OF assms(1)] assms(2,3)
  by (simp add: command_configured [OF assms(1)] execute_pipeline)


lemma transcode_or_edit_version:
  "transcode_or_edit c (st\<lparr>major_version := major, minor_version := minor\<rparr>) ain
     = transcode_or_edit c st ain"
  by (simp add: transcode_or_edit_def output_path_def ambient_of_def Let_def)

text \<open>Facts for evaluating runs on concrete command lines.\<close>

lemmas eval_options = queue_input_def push_input_def init_state_def empty_queue_def
  parse_version_def strchr_def strlen_def atoi_def isspace_def isdigit_def digit_value_def

lemmas eval_run = sample_collab_def ambient_of_def output_path_def open_container_def emit_def
  write_ain_file_def apply_input_def edit_call_def edit_requests_def project_args_def

section \<open>Project mode\<close>

text \<open>
  C5. In a run whose options are read without a fatal error and with at most one
  positional argument, in which a project file was given: the configuration holds the
  last project file given and the requested version; the run emits the warning exactly
  when an edit request was queued, calls the project builder with that file and version,
  and returns 0. The run does nothing else: no container is created or opened, no edit is
  dispatched, nothing is transcoded or written.
\<close>

theorem project_mode_bypasses_pipeline:
  assumes "parse_options c opts init_state = Inr st" "length argv \<le> 1" "project_args opts \<noteq> []"
  shows "project_file st = Some (last (project_args opts)) \<and>
         (major_version st, minor_version st) = requested_version opts (4, 0) \<and>
         command_ain_edit c opts argv =
           ((if edit_requests opts \<noteq> []
             then [WARNING ''Input files specified on the command line are ignored in --project mode'']
             else [])
            @ [Call_pje_build (last (project_args opts)) (major_version st) (minor_version st)],
            Inr 0)"
  using project_mode_run [OF assms] configured(4,7) [OF assms(1)] assms(3) by simp

theorem project_mode_bypasses_pipeline_witness:
  "length [''a.ain''] \<le> 1 \<and>
   project_args [(Short_c, ''a.jam''), (LOPT_AIN_VERSION, ''7.1''), (LOPT_PROJECT, ''p.pje'')] \<noteq> [] \<and>
   command_ain_edit sample_collab
     [(Short_c, ''a.jam''), (LOPT_AIN_VERSION, ''7.1''), (LOPT_PROJECT, ''p.pje'')] [''a.ain'']
   = ([WARNING ''Input files specified on the command line are ignored in --project mode'',
       Call_pje_build ''p.pje'' 7 1], Inr 0)"
proof -
  let ?opts = "[(Short_c, ''a.jam''), (LOPT_AIN_VERSION, ''7.1''), (LOPT_PROJECT, ''p.pje'')]"
  obtain st where st: "parse_options sample_collab ?opts init_state = Inr st"
    by (simp add: eval_options)
  have h: "length [''a.ain''] \<le> 1" "project_args ?opts \<noteq> []"
    by (simp_all add: project_args_def)
  have v: "parse_version ''7.1'' = Some (7, 1)"
    by (simp add: eval_options)
  show ?thesis
    using project_mode_bypasses_pipeline [OF st h] h
    by (simp add: v edit_requests_def project_args_def)
qed

text \<open>
  C9. In a run whose options are read without a fatal error and with at most one
  positional argument, in which both a project file and the transcode flag were given:
  the transcode flag is set in the configuration, yet the run is the project build and
  returns 0; no transcoding call and no write is made, and the only warning that can
  appear is the one about input files, which appears only when an edit request was queued.
\<close>

theorem project_mode_precedes_transcode:
  assumes "parse_options c opts init_state = Inr st" "length argv \<le> 1"
    "project_args opts \<noteq> []" "LOPT_TRANSCODE \<in> fst ` set opts"
  shows "transcode st \<and>
         (major_version st, minor_version st) = requested_version opts (4, 0) \<and>
         command_ain_edit c opts argv =
           ((if edit_requests opts \<noteq> []
             then [WARNING ''Input files specified on the command line are ignored in --project mode'']
             else [])
            @ [Call_pje_build (last (project_args opts)) (major_version st) (minor_version st)],
            Inr 0) \<and>
         (\<forall>enc_in enc_out. Call_ain_transcode enc_in enc_out \<notin> set (fst (command_ain_edit c opts argv))) \<and>
         (\<forall>f img. Call_ain_write f img \<notin> set (fst (command_ain_edit c opts argv))) \<and>
         (\<forall>w. WARNING w \<in> set (fst (command_ain_edit c opts argv)) \<longrightarrow>
              edit_requests opts \<noteq> [] \<and>
              w = ''Input files specified on the command line are ignored in --project mode'')"
  using project_mode_run [OF assms(1,2,3)] configured(5,7) [OF assms(1)] assms(4)
  by (auto split: if_splits)

theorem project_mode_precedes_transcode_witness:
  "length ([] :: string list) \<le> 1 \<and>
   project_args [(LOPT_TRANSCODE, ''UTF-8''), (Short_p, ''p.pje'')] \<noteq> [] \<and>
   LOPT_TRANSCODE \<in> fst ` set [(LOPT_TRANSCODE, ''UTF-8''), (Short_p, ''p.pje'')] \<and>
   command_ain_edit sample_collab [(LOPT_TRANSCODE, ''UTF-8''), (Short_p, ''p.pje'')] []
   = ([Call_pje_build ''p.pje'' 4 0], Inr 0)"
proof -
  let ?opts = "[(LOPT_TRANSCODE, ''UTF-8''), (Short_p, ''p.pje'')]"
  obtain st where st: "parse_options sample_collab ?opts init_state = Inr st"
    by (simp add: eval_options)
  have h: "length ([] :: string list) \<le> 1" "project_args ?opts \<noteq> []"
    "LOPT_TRANSCODE \<in> fst ` set ?opts"
    by (simp_all add: project_args_def)
  have v: "requested_version ?opts (4, 0) = (4, 0)"
    by simp
  show ?thesis
    using project_mode_precedes_transcode [OF st h] h
    by (simp add: v edit_requests_def project_args_def)
qed

section \<open>The requested version\<close>




section \<open>Opening a container\<close>

text \<open>
  C8, as amended. In a run whose options are read without a fatal error, with no project
  file and one positional argument: the container is opened with \<open>ain_open\<close>, which is
  not given the requested version; when it fails the run ends with
  \<open>Failed to open ain file:\<close> followed by the reader's message, and nothing else has
  happened, so nothing is written; when it succeeds the run continues on the image it
  returned. Whatever version the configuration holds, defaulted or supplied, the run is
  the same.
\<close>

theorem open_ignores_requested_version:
  assumes "parse_options c opts init_state = Inr st" "project_args opts = []"
  shows "command_ain_edit c opts [path] =
     (case ain_open c path of
        Inl err \<Rightarrow>
          ([Call_ain_open path],
           Inl (ALICE_ERROR (''Failed to open ain file: '' @ ain_strerror c err)))
      | Inr ain \<Rightarrow>
          emit [Call_ain_open path, Call_ain_init_member_functions]
            (transcode_or_edit c st (ain_init_member_functions c (ambient_of st) ain))) \<and>
     execute c (st\<lparr>major_version := major, minor_version := minor\<rparr>) [path] = execute c st [path]"
proof -
  have n: "project_file st = None" using configured(4) [OF assms(1)] assms(2) by simp
  have "command_ain_edit c opts [path] = pipeline c st [path]"
    using pipeline_run [OF assms(1) _ assms(2), of "[path]"] by simp
  moreover have "ambient_of (st\<lparr>major_version := major, minor_version := minor\<rparr>) = ambient_of st"
    by (simp add: ambient_of_def)
  then have "execute c (st\<lparr>major_version := major, minor_version := minor\<rparr>) [path]
      = execute c st [path]"
    using n by (simp add: execute_def pipeline_unfold open_container_def transcode_or_edit_version
        split: sum.splits)
  ultimately show ?thesis
    by (simp add: pipeline_unfold open_container_def split: sum.splits)
qed

theorem open_ignores_requested_version_witness:
  "project_args [(LOPT_AIN_VERSION, ''7.1'')] = [] \<and>
   command_ain_edit sample_collab [(LOPT_AIN_VERSION, ''7.1'')] [''a.ain'']
     = ([Call_ain_open ''a.ain'', Call_ain_init_member_functions, NOTICE ''Writing AIN file...'',
         Call_ain_write ''out.ain'' (Sample_image (12, 0) [''open'', ''init'']), Call_ain_free], Inr 0) \<and>
   command_ain_edit sample_collab [(LOPT_AIN_VERSION, ''7.1'')] [''missing.ain'']
     = ([Call_ain_open ''missing.ain''], Inl (ALICE_ERROR ''Failed to open ain file: file error''))"
proof -
  let ?opts = "[(LOPT_AIN_VERSION, ''7.1'')]"
  let ?st = "init_state\<lparr>major_version := 7, minor_version := 1\<rparr>"
  have st: "parse_options sample_collab ?opts init_state = Inr ?st"
    by (simp add: eval_options)
  have h: "project_args ?opts = []"
    by (simp add: project_args_def)
  show ?thesis
    using open_ignores_requested_version [OF st h, of "''a.ain''"]
      open_ignores_requested_version [OF st h, of "''missing.ain''"] h
    by (simp add: transcode_or_edit_def dispatch.simps eval_run init_state_def empty_queue_def)
qed

text \<open>
  C8 as stated fails when a project file is given: the positional container is never
  opened, and the requested version, given or defaulted, is passed to the project builder.
\<close>

theorem project_mode_opens_no_container:
  "command_ain_edit sample_collab [(LOPT_PROJECT, ''p.pje''), (LOPT_AIN_VERSION, ''7.1'')] [''a.ain'']
     = ([Call_pje_build ''p.pje'' 7 1], Inr 0) \<and>
   command_ain_edit sample_collab [(LOPT_PROJECT, ''p.pje'')] [''a.ain'']
     = ([Call_pje_build ''p.pje'' 4 0], Inr 0)"
  by (simp add: command_ain_edit_def execute_def eval_options)

section \<open>Transcoding\<close>

text \<open>
  C3, as amended. In a run whose options are read without a fatal error, with at most one
  positional argument and no project file, in which the transcode flag is set and the
  queue is not empty: if the container cannot be opened the run ends with that error;
  otherwise the warning is emitted, no edit call is made, the image handed to the writer
  is the container after the member-function fix-up and the transcoding only, and the
  writer is called on it.
\<close>

theorem transcode_excludes_edits:
  assumes "parse_options c opts init_state = Inr st" "length argv \<le> 1" "project_args opts = []"
    "LOPT_TRANSCODE \<in> fst ` set opts" "edit_requests opts \<noteq> []"
  shows "command_ain_edit c opts argv =
     (case open_container c st argv of
        (evs, Inl e) \<Rightarrow> (evs, Inl e)
      | (evs, Inr ain) \<Rightarrow>
          (evs @
           [Call_ain_init_member_functions,
            WARNING ''Input files specified on the command line are ignored in --transcode mode'',
            Call_ain_transcode (input_encoding st) (output_encoding st),
            NOTICE ''Writing AIN file...'',
            Call_ain_write (output_path st)
              (ain_transcode c (ambient_of st) (ain_init_member_functions c (ambient_of st) ain))]
           @ (if ain_write c (ambient_of st) (output_path st)
                   (ain_transcode c (ambient_of st) (ain_init_member_functions c (ambient_of st) ain))
              then [Call_ain_free] else []),
           if ain_write c (ambient_of st) (output_path st)
                (ain_transcode c (ambient_of st) (ain_init_member_functions c (ambient_of st) ain))
           then Inr 0 else Inl Collaborator_failure))"
proof -
  have t: "transcode st" using configured(5) [OF assms(1)] assms(4) by simp
  have n: "0 < nr_inputs (queue st)" using configured(3) [OF assms(1)] assms(5) by simp
  show ?thesis
    using n by (simp add: pipeline_run [OF assms(1,2,3)] pipeline_unfold transcode_path [OF t]
        emit_def split: prod.splits sum.splits)
qed

theorem transcode_excludes_edits_witness:
  "length [''a.ain''] \<le> 1 \<and>
   project_args [(LOPT_TRANSCODE, ''UTF-8''), (Short_c, ''a.jam'')] = [] \<and>
   LOPT_TRANSCODE \<in> fst ` set [(LOPT_TRANSCODE, ''UTF-8''), (Short_c, ''a.jam'')] \<and>
   edit_requests [(LOPT_TRANSCODE, ''UTF-8''), (Short_c, ''a.jam'')] \<noteq> [] \<and>
   command_ain_edit sample_collab [(LOPT_TRANSCODE, ''UTF-8''), (Short_c, ''a.jam'')] [''a.ain'']
     = ([Call_ain_open ''a.ain'', Call_ain_init_member_functions,
         WARNING ''Input files specified on the command line are ignored in --transcode mode'',
         Call_ain_transcode ''CP932'' ''UTF-8'', NOTICE ''Writing AIN file...'',
         Call_ain_write ''out.ain'' (Sample_image (12, 0) [''open'', ''init'', ''transcode to UTF-8'']),
         Call_ain_free], Inr 0)"
proof -
  let ?opts = "[(LOPT_TRANSCODE, ''UTF-8''), (Short_c, ''a.jam'')]"
  let ?st = "init_state\<lparr>transcode := True, input_encoding := ''CP932'', output_encoding := ''UTF-8'',
                queue := snd (push_input IN_CODE ''a.jam'' empty_queue)\<rparr>"
  have st: "parse_options sample_collab ?opts init_state = Inr ?st"
    by (simp add: eval_options)
  have h: "length [''a.ain''] \<le> 1" "project_args ?opts = []" "LOPT_TRANSCODE \<in> fst ` set ?opts"
    "edit_requests ?opts \<noteq> []"
    by (simp_all add: project_args_def edit_requests_def)
  show ?thesis
    using transcode_excludes_edits [OF st h] h
    by (simp add: eval_run init_state_def)
qed

text \<open>
  C3 as stated fails when a project file is given as well: the transcode flag is set and
  the queue is not empty, yet nothing is transcoded and nothing is written.
\<close>

theorem project_mode_skips_transcode:
  "LOPT_TRANSCODE \<in> fst ` set [(LOPT_TRANSCODE, ''UTF-8''), (Short_c, ''a.jam''), (LOPT_PROJECT, ''p.pje'')] \<and>
   edit_requests [(LOPT_TRANSCODE, ''UTF-8''), (Short_c, ''a.jam''), (LOPT_PROJECT, ''p.pje'')] \<noteq> [] \<and>
   command_ain_edit sample_collab
     [(LOPT_TRANSCODE, ''UTF-8''), (Short_c, ''a.jam''), (LOPT_PROJECT, ''p.pje'')] []
   = ([WARNING ''Input files specified on the command line are ignored in --project mode'',
       Call_pje_build ''p.pje'' 4 0], Inr 0)"
  by (simp add: command_ain_edit_def execute_def eval_options edit_requests_def)

text \<open>
  C4, as amended. A run with the transcode flag set, no project file and no positional
  argument does not fail for want of a container: it creates a new image of the requested
  version, fixes it up, transcodes it and hands it to the writer; it returns 0 unless the
  writer fails.
\<close>

theorem transcode_without_container_runs:
  assumes "parse_options c opts init_state = Inr st" "project_args opts = []"
    "LOPT_TRANSCODE \<in> fst ` set opts"
  shows "command_ain_edit c opts [] =
     ([Call_ain_new (major_version st) (minor_version st), Call_ain_init_member_functions]
      @ (if edit_requests opts \<noteq> []
         then [WARNING ''Input files specified on the command line are ignored in --transcode mode'']
         else [])
      @ [Call_ain_transcode (input_encoding st) (output_encoding st),
         NOTICE ''Writing AIN file...'',
         Call_ain_write (output_path st)
           (ain_transcode c (ambient_of st) (ain_init_member_functions c (ambient_of st)
              (ain_new c (major_version st) (minor_version st))))]
      @ (if ain_write c (ambient_of st) (output_path st)
              (ain_transcode c (ambient_of st) (ain_init_member_functions c (ambient_of st)
                 (ain_new c (major_version st) (minor_version st))))
         then [Call_ain_free] else []),
      if ain_write c (ambient_of st) (output_path st)
           (ain_transcode c (ambient_of st) (ain_init_member_functions c (ambient_of st)
              (ain_new c (major_version st) (minor_version st))))
      then Inr 0 else Inl Collaborator_failure)"
proof -
  have t: "transcode st" using configured(5) [OF assms(1)] assms(3) by simp
  show ?thesis
    using configured(3) [OF assms(1)] pipeline_run [OF assms(1) _ assms(2), of "[]"]
    by (simp add: pipeline_unfold open_container_def transcode_path [OF t] emit_def)
qed

theorem transcode_without_container_runs_witness:
  "project_args [(LOPT_TRANSCODE, ''EUC-JP''), (Short_o, ''t.ain''), (LOPT_AIN_VERSION, ''6'')] = [] \<and>
   LOPT_TRANSCODE \<in> fst ` set [(LOPT_TRANSCODE, ''EUC-JP''), (Short_o, ''t.ain''), (LOPT_AIN_VERSION, ''6'')] \<and>
   command_ain_edit sample_collab
     [(LOPT_TRANSCODE, ''EUC-JP''), (Short_o, ''t.ain''), (LOPT_AIN_VERSION, ''6'')] []
     = ([Call_ain_new 6 0, Call_ain_init_member_functions, Call_ain_transcode ''CP932'' ''EUC-JP'',
         NOTICE ''Writing AIN file...'',
         Call_ain_write ''t.ain'' (Sample_image (6, 0) [''init'', ''transcode to EUC-JP'']),
         Call_ain_free], Inr 0)"
proof -
  let ?opts = "[(LOPT_TRANSCODE, ''EUC-JP''), (Short_o, ''t.ain''), (LOPT_AIN_VERSION, ''6'')]"
  let ?st = "init_state\<lparr>transcode := True, input_encoding := ''CP932'', output_encoding := ''EUC-JP'',
                output_file := Some ''t.ain'', major_version := 6, minor_version := 0\<rparr>"
  have st: "parse_options sample_collab ?opts init_state = Inr ?st"
    by (simp add: eval_options)
  have h: "project_args ?opts = []" "LOPT_TRANSCODE \<in> fst ` set ?opts"
    by (simp_all add: project_args_def)
  show ?thesis
    using transcode_without_container_runs [OF st h] h
    by (simp add: eval_run init_state_def)
qed

text \<open>
  C4 as stated fails: with the target encoding \<open>UTF-8\<close> and no container path the run
  returns 0 after writing the transcoded new image.
\<close>

theorem transcode_of_new_image_succeeds:
  "command_ain_edit sample_collab [(LOPT_TRANSCODE, ''UTF-8'')] []
   = ([Call_ain_new 4 0, Call_ain_init_member_functions, Call_ain_transcode ''CP932'' ''UTF-8'',
       NOTICE ''Writing AIN file...'',
       Call_ain_write ''out.ain'' (Sample_image (4, 0) [''init'', ''transcode to UTF-8'']),
       Call_ain_free], Inr 0)"
  by (simp add: command_ain_edit_def execute_def pipeline_def transcode_or_edit_def eval_options eval_run)

section \<open>Dispatching the edits\<close>

text \<open>
  C6. In a run that reaches the dispatch loop (options read without a fatal error, at
  most one positional argument, no project file, no transcode flag, container obtained):
  the queue holds the edit requests of the command line in the order given, none dropped
  or merged; a code request goes to the assembler with the flags (the raw flag exactly
  when it was given), a source request to the compiler, a declarations request and a text
  request to their mergers; the calls are made in queue order, each on the image the one
  before returned; and the writer is called after all of them, on the last image. If a
  call ends the run, the calls made are those up to it and nothing is written.
\<close>

theorem edits_dispatched_in_submission_order:
  fixes c :: "'img collab"
  assumes "parse_options c opts init_state = Inr st" "length argv \<le> 1" "project_args opts = []"
    "LOPT_TRANSCODE \<notin> fst ` set opts" "open_container c st argv = (evs, Inr ain)"
  shows "queued (queue st) = edit_requests opts \<and>
     flags st = (if LOPT_RAW \<in> fst ` set opts then ASM_RAW c else 0) \<and>
     apply_input c amb fl \<lparr>type = IN_CODE, filename = f\<rparr> a = asm_assemble_jam c amb f a fl \<and>
     apply_input c amb fl \<lparr>type = IN_JAF, filename = f\<rparr> a = jaf_build c amb a [f] \<and>
     apply_input c amb fl \<lparr>type = IN_DECL, filename = f\<rparr> a = read_declarations c amb f a \<and>
     apply_input c amb fl \<lparr>type = IN_TEXT, filename = f\<rparr> a = read_text c amb f a \<and>
     (edit_call fl \<lparr>type = IN_CODE, filename = f\<rparr> :: 'img event) = Call_asm_assemble_jam f fl \<and>
     (edit_call fl \<lparr>type = IN_JAF, filename = f\<rparr> :: 'img event) = Call_jaf_build [f] \<and>
     (edit_call fl \<lparr>type = IN_DECL, filename = f\<rparr> :: 'img event) = Call_read_declarations f \<and>
     (edit_call fl \<lparr>type = IN_TEXT, filename = f\<rparr> :: 'img event) = Call_read_text f \<and>
     (case apply_all c (ambient_of st) (flags st) (edit_requests opts)
             (ain_init_member_functions c (ambient_of st) ain) of
        Some ain' \<Rightarrow>
          command_ain_edit c opts argv =
            emit (evs @ [Call_ain_init_member_functions]
                    @ map (edit_call (flags st)) (edit_requests opts))
              (write_ain_file c (ambient_of st) (output_path st) ain')
      | None \<Rightarrow>
          (\<exists>k<length (edit_requests opts).
             command_ain_edit c opts argv =
               (evs @ [Call_ain_init_member_functions]
                  @ map (edit_call (flags st)) (take (Suc k) (edit_requests opts)),
                Inl Collaborator_failure)))"
proof -
  have t: "\<not> transcode st" using configured(5) [OF assms(1)] assms(4) by simp
  note q = configured(1,2) [OF assms(1)]
  have d: "dispatch c (ambient_of st) (flags st) (queue st) 0 a
             = dispatch_list c (ambient_of st) (flags st) (edit_requests opts) a" for a
    using dispatch_as_list [of "queue st" 0] q by (simp add: queue_ok_def)
  have run: "command_ain_edit c opts argv =
      emit (evs @ [Call_ain_init_member_functions])
        (case dispatch_list c (ambient_of st) (flags st) (edit_requests opts)
                (ain_init_member_functions c (ambient_of st) ain) of
           (evs', Inl e) \<Rightarrow> (evs', Inl e)
         | (evs', Inr ain') \<Rightarrow> emit evs' (write_ain_file c (ambient_of st) (output_path st) ain'))"
    using t by (simp add: pipeline_run [OF assms(1,2,3)] pipeline_unfold assms(5)
        transcode_or_edit_def d Let_def)
  show ?thesis
    using dispatch_list_result [where c = c and amb = "ambient_of st" and fl = "flags st"
        and rs = "edit_requests opts" and ain = "ain_init_member_functions c (ambient_of st) ain"]
    by (auto simp add: q(2) configured(8) [OF assms(1)] run emit_def apply_input_def edit_call_def
        split: option.splits)
qed

theorem edits_dispatched_in_submission_order_witness:
  "length [''a.ain''] \<le> 1 \<and>
   project_args [(Short_j, ''d.json''), (LOPT_RAW, []), (Short_c, ''a.jam''), (Short_t, ''t.txt'')] = [] \<and>
   LOPT_TRANSCODE \<notin> fst ` set [(Short_j, ''d.json''), (LOPT_RAW, []), (Short_c, ''a.jam''), (Short_t, ''t.txt'')] \<and>
   command_ain_edit sample_collab
     [(Short_j, ''d.json''), (LOPT_RAW, []), (Short_c, ''a.jam''), (Short_t, ''t.txt'')] [''a.ain'']
     = ([Call_ain_open ''a.ain'', Call_ain_init_member_functions,
         Call_read_declarations ''d.json'', Call_asm_assemble_jam ''a.jam'' 1,
         Call_read_text ''t.txt'', NOTICE ''Writing AIN file...'',
         Call_ain_write ''out.ain''
           (Sample_image (12, 0) [''open'', ''init'', ''decl d.json'', ''jam a.jam'', ''text t.txt'']),
         Call_ain_free], Inr 0)"
proof -
  let ?opts = "[(Short_j, ''d.json''), (LOPT_RAW, []), (Short_c, ''a.jam''), (Short_t, ''t.txt'')]"
  obtain st where st: "parse_options sample_collab ?opts init_state = Inr st"
    by (simp add: eval_options)
  have h: "length [''a.ain''] \<le> 1" "project_args ?opts = []" "LOPT_TRANSCODE \<notin> fst ` set ?opts"
    by (simp_all add: project_args_def)
  have o: "open_container sample_collab st [''a.ain'']
             = ([Call_ain_open ''a.ain''], Inr (Sample_image (12, 0) [''open'']))"
    by (simp add: open_container_def sample_collab_def)
  have f: "flags st = 1"
    using configured(8) [OF st] by (simp add: sample_collab_def)
  have p: "output_path st = ''out.ain''"
    using st by (auto simp add: eval_options output_path_def)
  show ?thesis
    using edits_dispatched_in_submission_order [OF st h o] h
    by (simp add: f p sample_collab_def ambient_of_def emit_def write_ain_file_def
        apply_input_def edit_call_def edit_requests_def)
qed

end
